theory Spec2Isabelle
  imports Main
begin

section \<open>JavaScript strings\<close>

text \<open>
  The chat client of \<^verbatim>\<open>joi-frontend/src/Pages/Home.jsx\<close> works on JavaScript strings.
  A string is modelled as a \<^typ>\<open>string\<close>: one \<^typ>\<open>char\<close> per code unit, for texts whose
  code units are below 256 (the Latin-1 range). The character tests below are the
  ECMAScript ones restricted to that range.
\<close>

definition isWhiteSpace :: "char \<Rightarrow> bool" where
  \<comment> \<open>\<^verbatim>\<open>\s\<close> and the characters removed by \<^verbatim>\<open>trim()\<close>: TAB, LF, VT, FF, CR, SP, NBSP\<close>
  "isWhiteSpace c \<longleftrightarrow> (let n = (of_char c :: nat) in (9 \<le> n \<and> n \<le> 13) \<or> n = 32 \<or> n = 160)"

definition isDigit :: "char \<Rightarrow> bool" where
  \<comment> \<open>\<^verbatim>\<open>\d\<close>\<close>
  "isDigit c \<longleftrightarrow> (let n = (of_char c :: nat) in 48 \<le> n \<and> n \<le> 57)"

definition isWordChar :: "char \<Rightarrow> bool" where
  \<comment> \<open>\<^verbatim>\<open>\w\<close>: \<^verbatim>\<open>[A-Za-z0-9_]\<close>\<close>
  "isWordChar c \<longleftrightarrow>
     (let n = (of_char c :: nat)
      in (65 \<le> n \<and> n \<le> 90) \<or> (97 \<le> n \<and> n \<le> 122) \<or> (48 \<le> n \<and> n \<le> 57) \<or> n = 95)"

definition isLineTerminator :: "char \<Rightarrow> bool" where
  \<comment> \<open>the characters a \<^verbatim>\<open>.\<close> does not match without the \<^verbatim>\<open>s\<close> flag: LF and CR\<close>
  "isLineTerminator c \<longleftrightarrow> (let n = (of_char c :: nat) in n = 10 \<or> n = 13)"

definition asciiUpper :: "char \<Rightarrow> char" where
  "asciiUpper c = (let n = (of_char c :: nat) in if 97 \<le> n \<and> n \<le> 122 then char_of (n - 32) else c)"

definition lowerChar :: "char \<Rightarrow> char" where
  \<comment> \<open>\<^verbatim>\<open>toLowerCase()\<close> on one Latin-1 code unit\<close>
  "lowerChar c =
     (let n = (of_char c :: nat)
      in if (65 \<le> n \<and> n \<le> 90) \<or> (192 \<le> n \<and> n \<le> 222 \<and> n \<noteq> 215) then char_of (n + 32) else c)"

definition toLowerCase :: "string \<Rightarrow> string" where
  "toLowerCase s = map lowerChar s"

definition trim :: "string \<Rightarrow> string" where
  "trim s = rev (dropWhile isWhiteSpace (rev (dropWhile isWhiteSpace s)))"

definition startsWith :: "string \<Rightarrow> string \<Rightarrow> bool" where
  "startsWith s p \<longleftrightarrow> take (length p) s = p"

fun firstIndex :: "string \<Rightarrow> string \<Rightarrow> nat option" where
  "firstIndex p [] = (if p = [] then Some 0 else None)"
| "firstIndex p (x # xs) =
     (if startsWith (x # xs) p then Some 0 else map_option Suc (firstIndex p xs))"

definition includesStr :: "string \<Rightarrow> string \<Rightarrow> bool" where
  \<comment> \<open>\<^verbatim>\<open>s.includes(p)\<close>\<close>
  "includesStr s p \<longleftrightarrow> firstIndex p s \<noteq> None"

definition indexOf :: "string \<Rightarrow> string \<Rightarrow> int \<Rightarrow> int" where
  \<comment> \<open>\<^verbatim>\<open>s.indexOf(p, from)\<close>: the start position is clamped into the string, the
      result is -1 when there is no occurrence\<close>
  "indexOf s p from =
     (let k = nat (min (max from 0) (int (length s)))
      in case firstIndex p (drop k s) of None \<Rightarrow> - 1 | Some i \<Rightarrow> int (k + i))"

definition relIndex :: "string \<Rightarrow> int \<Rightarrow> nat" where
  \<comment> \<open>how \<^verbatim>\<open>slice\<close> reads an index: negative counts from the end, then clamped\<close>
  "relIndex s i = (if i < 0 then nat (max (int (length s) + i) 0) else min (nat i) (length s))"

definition slice :: "string \<Rightarrow> int \<Rightarrow> int \<Rightarrow> string" where
  \<comment> \<open>\<^verbatim>\<open>s.slice(a, b)\<close>\<close>
  "slice s a b = (let from = relIndex s a; to = relIndex s b in take (to - from) (drop from s))"

definition sliceFrom :: "string \<Rightarrow> int \<Rightarrow> string" where
  \<comment> \<open>\<^verbatim>\<open>s.slice(a)\<close>\<close>
  "sliceFrom s a = drop (relIndex s a) s"

definition digitChar :: "nat \<Rightarrow> char" where
  "digitChar d = ''0123456789'' ! (d mod 10)"

fun natToString :: "nat \<Rightarrow> string" where
  "natToString n = (if n < 10 then [digitChar n] else natToString (n div 10) @ [digitChar (n mod 10)])"

declare natToString.simps [simp del]

definition intToString :: "int \<Rightarrow> string" where
  \<comment> \<open>\<^verbatim>\<open>n.toString()\<close> of an integral number\<close>
  "intToString i = (if i < 0 then CHR ''-'' # natToString (nat (- i)) else natToString (nat i))"

definition padStart :: "string \<Rightarrow> nat \<Rightarrow> char \<Rightarrow> string" where
  \<comment> \<open>\<^verbatim>\<open>s.padStart(n, c)\<close> with a one-character filler\<close>
  "padStart s n c = replicate (n - length s) c @ s"

section \<open>Regular expressions\<close>

text \<open>
  The regular expressions of the source are kept as data and run by a backtracking
  matcher. Every quantifier of the source stands on a one-character atom, so a quantifier
  here takes an atom. The matcher returns the ways to match at the start of the input,
  in the order the backtracking of ECMAScript tries them; the first one is the match.
\<close>

datatype atom =
    Ch char           \<comment> \<open>a literal character\<close>
  | ChI char          \<comment> \<open>a literal (ASCII) character under the \<^verbatim>\<open>i\<close> flag\<close>
  | Dot               \<comment> \<open>\<^verbatim>\<open>.\<close>\<close>
  | DotS              \<comment> \<open>\<^verbatim>\<open>.\<close> under the \<^verbatim>\<open>s\<close> flag\<close>
  | Word              \<comment> \<open>\<^verbatim>\<open>\w\<close>\<close>
  | Digit             \<comment> \<open>\<^verbatim>\<open>\d\<close>\<close>
  | Space             \<comment> \<open>\<^verbatim>\<open>\s\<close>\<close>
  | NonSpace          \<comment> \<open>\<^verbatim>\<open>\S\<close>\<close>
  | OneOf atom atom   \<comment> \<open>a class of two members, \<^verbatim>\<open>[ab]\<close>\<close>

fun atomMatch :: "atom \<Rightarrow> char \<Rightarrow> bool" where
  "atomMatch (Ch p) c = (c = p)"
| "atomMatch (ChI p) c = (asciiUpper c = asciiUpper p)"
| "atomMatch Dot c = (\<not> isLineTerminator c)"
| "atomMatch DotS c = True"
| "atomMatch Word c = isWordChar c"
| "atomMatch Digit c = isDigit c"
| "atomMatch Space c = isWhiteSpace c"
| "atomMatch NonSpace c = (\<not> isWhiteSpace c)"
| "atomMatch (OneOf a b) c = (atomMatch a c \<or> atomMatch b c)"

datatype re =
    A atom
  | Seq re re
  | Alt re re
  | Quant nat "nat option" bool atom   \<comment> \<open>least and greatest count, greedy?, atom\<close>
  | Group nat re                       \<comment> \<open>capture group number n\<close>
  | LookAhead re                       \<comment> \<open>\<^verbatim>\<open>(?=r)\<close>\<close>
  | EndOfInput                         \<comment> \<open>\<^verbatim>\<open>$\<close> without the \<^verbatim>\<open>m\<close> flag\<close>

type_synonym captures = "(nat \<times> string) list"
type_synonym mstate = "string \<times> captures"

fun runs :: "(char \<Rightarrow> bool) \<Rightarrow> string \<Rightarrow> string list" where
  \<comment> \<open>what is left after reading 0, 1, 2, ... characters that satisfy p\<close>
  "runs p [] = [[]]"
| "runs p (c # cs) = (c # cs) # (if p c then runs p cs else [])"

definition quantified :: "nat \<Rightarrow> nat option \<Rightarrow> bool \<Rightarrow> atom \<Rightarrow> string \<Rightarrow> string list" where
  "quantified lo hi greedy a s =
     (let all = runs (atomMatch a) s;
          upto = (case hi of None \<Rightarrow> all | Some h \<Rightarrow> take (Suc h) all);
          cands = drop lo upto
      in if greedy then rev cands else cands)"

fun ms :: "re \<Rightarrow> mstate \<Rightarrow> mstate list" where
  "ms (A a) (s, c) = (case s of [] \<Rightarrow> [] | x # xs \<Rightarrow> if atomMatch a x then [(xs, c)] else [])"
| "ms (Seq r1 r2) st = concat (map (ms r2) (ms r1 st))"
| "ms (Alt r1 r2) st = ms r1 st @ ms r2 st"
| "ms (Quant lo hi greedy a) (s, c) = map (\<lambda>s'. (s', c)) (quantified lo hi greedy a s)"
| "ms (Group n r) (s, c) =
     map (\<lambda>(s', c'). (s', (n, take (length s - length s') s) # c')) (ms r (s, c))"
| "ms (LookAhead r) st = (if ms r st = [] then [] else [st])"
| "ms EndOfInput (s, c) = (if s = [] then [(s, c)] else [])"

fun lit :: "string \<Rightarrow> re \<Rightarrow> re" where
  \<comment> \<open>a literal text, followed by r\<close>
  "lit [] r = r"
| "lit (x # xs) r = Seq (A (Ch x)) (lit xs r)"

fun litI :: "string \<Rightarrow> re \<Rightarrow> re" where
  \<comment> \<open>a literal text under the \<^verbatim>\<open>i\<close> flag, followed by r\<close>
  "litI [] r = r"
| "litI (x # xs) r = Seq (A (ChI x)) (litI xs r)"

definition word :: "string \<Rightarrow> re" where
  \<comment> \<open>a non-empty literal text\<close>
  "word w = lit (butlast w) (A (Ch (last w)))"

definition wordI :: "string \<Rightarrow> re" where
  "wordI w = litI (butlast w) (A (ChI (last w)))"

record rmatch =
  mbefore :: string      \<comment> \<open>the input from the start of the search to the match\<close>
  matched :: string     \<comment> \<open>\<^verbatim>\<open>match[0]\<close>\<close>
  mafter :: string       \<comment> \<open>the input behind the match\<close>
  groups :: captures

fun search :: "re \<Rightarrow> string \<Rightarrow> rmatch option" where
  \<comment> \<open>the leftmost match: every start position in turn, also the end of the input\<close>
  "search r [] =
     (case ms r ([], []) of
        [] \<Rightarrow> None
      | (s', c) # _ \<Rightarrow> Some \<lparr>mbefore = [], matched = [], mafter = [], groups = c\<rparr>)"
| "search r (x # xs) =
     (case ms r (x # xs, []) of
        [] \<Rightarrow> map_option (\<lambda>m. m\<lparr>mbefore := x # mbefore m\<rparr>) (search r xs)
      | (s', c) # _ \<Rightarrow>
          Some \<lparr>mbefore = [], matched = take (length (x # xs) - length s') (x # xs),
                mafter = s', groups = c\<rparr>)"

definition test :: "re \<Rightarrow> string \<Rightarrow> bool" where
  \<comment> \<open>the truth value of \<^verbatim>\<open>s.match(r)\<close>\<close>
  "test r s \<longleftrightarrow> search r s \<noteq> None"

definition group :: "rmatch \<Rightarrow> nat \<Rightarrow> string option" where
  \<comment> \<open>\<^verbatim>\<open>match[n]\<close>, None for \<^verbatim>\<open>undefined\<close>\<close>
  "group m n = map_of (groups m) n"

subsection \<open>Global replacement by the empty string\<close>

function removeAll :: "re \<Rightarrow> string \<Rightarrow> string" where
  \<comment> \<open>\<^verbatim>\<open>s.replace(/r/g, '')\<close>: after an empty match the search resumes one character on\<close>
  "removeAll r s =
     (case search r s of
        None \<Rightarrow> s
      | Some m \<Rightarrow>
          mbefore m @
          (if matched m = [] then (case mafter m of [] \<Rightarrow> [] | x # xs \<Rightarrow> x # removeAll r xs)
           else removeAll r (mafter m)))"
  by pat_completeness auto

section \<open>The response transformer\<close>

subsection \<open>cleanResponse\<close>

definition reToolCallArgs :: re where
  \<comment> \<open>\<^verbatim>\<open>/TOOL_CALL::.*?}/g\<close>\<close>
  "reToolCallArgs = lit ''TOOL_CALL::'' (Seq (Quant 0 None False Dot) (A (Ch CHR ''}'')))"

definition reToolCall :: re where
  \<comment> \<open>\<^verbatim>\<open>/TOOL_CALL/g\<close>\<close>
  "reToolCall = word ''TOOL_CALL''"

definition reMarkup :: re where
  \<comment> \<open>\<^verbatim>\<open>/(\*\*|`{1,3}|\n{2,})/g\<close>\<close>
  "reMarkup =
     Group 1 (Alt (word ''**'')
             (Alt (Quant 1 (Some 3) True (Ch CHR ''`''))
                  (Quant 2 None True (Ch CHR 0x0A))))"

definition reLetMe :: re where
  \<comment> \<open>\<^verbatim>\<open>/Let me (fetch|check|help|explain).*?\./gi\<close>\<close>
  "reLetMe =
     litI ''Let me ''
       (Seq (Group 1 (Alt (wordI ''fetch'') (Alt (wordI ''check'')
                     (Alt (wordI ''help'') (wordI ''explain'')))))
            (Seq (Quant 0 None False Dot) (A (ChI CHR ''.''))))"

definition reLetMeKnow :: re where
  \<comment> \<open>\<^verbatim>\<open>/Let me know if.*$/gi\<close>\<close>
  "reLetMeKnow = litI ''Let me know if'' (Seq (Quant 0 None True Dot) EndOfInput)"

definition reHeresASimple :: re where
  \<comment> \<open>\<^verbatim>\<open>/Here's a simple.*?:/gi\<close>\<close>
  "reHeresASimple = litI ''Here's a simple'' (Seq (Quant 0 None False Dot) (A (ChI CHR '':'')))"

definition reHowToRun :: re where
  \<comment> \<open>\<^verbatim>\<open>/###\s*How to run.*?(?=\n|$)/gis\<close>\<close>
  "reHowToRun =
     litI ''###''
       (Seq (Quant 0 None True Space)
            (litI ''How to run''
               (Seq (Quant 0 None False DotS)
                    (LookAhead (Alt (A (ChI CHR 0x0A)) EndOfInput)))))"

definition reNumbered :: re where
  \<comment> \<open>\<^verbatim>\<open>/(\d+\.\s*.*?)(?=\n|$)/g\<close>\<close>
  "reNumbered =
     Seq (Group 1 (Seq (Quant 1 None True Digit)
                  (Seq (A (Ch CHR ''.''))
                  (Seq (Quant 0 None True Space) (Quant 0 None False Dot)))))
         (LookAhead (Alt (A (Ch CHR 0x0A)) EndOfInput))"

definition cleanResponse :: "string \<Rightarrow> string" where
  "cleanResponse text =
     trim (removeAll reNumbered
          (removeAll reHowToRun
          (removeAll reHeresASimple
          (removeAll reLetMeKnow
          (removeAll reLetMe
          (removeAll reMarkup
          (removeAll reToolCall
          (removeAll reToolCallArgs text))))))))"

subsection \<open>Dates\<close>

definition dateRegex :: re where
  \<comment> \<open>\<^verbatim>\<open>/(\w+ \d{1,2}, \d{4})|(\d{4}-\d{2}-\d{2})/\<close>\<close>
  "dateRegex =
     Alt (Group 1 (Seq (Quant 1 None True Word)
                  (Seq (A (Ch CHR '' ''))
                  (Seq (Quant 1 (Some 2) True Digit)
                  (lit '', '' (Quant 4 (Some 4) True Digit))))))
         (Group 2 (Seq (Quant 4 (Some 4) True Digit)
                  (Seq (A (Ch CHR ''-''))
                  (Seq (Quant 2 (Some 2) True Digit)
                  (Seq (A (Ch CHR ''-''))
                       (Quant 2 (Some 2) True Digit))))))"

text \<open>
  The \<^verbatim>\<open>Date\<close> object belongs to the platform. A date-only ISO text of a day of the
  calendar is read as midnight UTC of that day (ECMAScript, Date Time String Format);
  what \<^verbatim>\<open>new Date(s)\<close> makes of any other text is left to the implementation, and the
  getters \<^verbatim>\<open>getDate\<close>, \<^verbatim>\<open>getMonth\<close>, \<^verbatim>\<open>getFullYear\<close> read the local time. Both are
  parameters of the model: the time zone adjustment at an instant, and the parser of the
  other texts (None for an invalid date). Instants are milliseconds since the epoch.
\<close>

record platform =
  localTZA :: "int \<Rightarrow> int"
  parseOther :: "string \<Rightarrow> int option"

definition msPerDay :: int where
  "msPerDay = 86400000"

definition isLeapYear :: "int \<Rightarrow> bool" where
  "isLeapYear y \<longleftrightarrow> y mod 4 = 0 \<and> (y mod 100 \<noteq> 0 \<or> y mod 400 = 0)"

definition daysInMonth :: "int \<Rightarrow> int \<Rightarrow> int" where
  "daysInMonth y m =
     (if m = 2 then (if isLeapYear y then 29 else 28)
      else if m = 4 \<or> m = 6 \<or> m = 9 \<or> m = 11 then 30 else 31)"

definition daysFromCivil :: "int \<Rightarrow> int \<Rightarrow> int \<Rightarrow> int" where
  \<comment> \<open>the day number (days since 1970-01-01) of a day of the proleptic Gregorian calendar\<close>
  "daysFromCivil y m d =
     (let y' = (if m \<le> 2 then y - 1 else y);
          era = y' div 400;
          yoe = y' - era * 400;
          doy = (153 * (if m > 2 then m - 3 else m + 9) + 2) div 5 + d - 1;
          doe = yoe * 365 + yoe div 4 - yoe div 100 + doy
      in era * 146097 + doe - 719468)"

definition civilFromDays :: "int \<Rightarrow> int \<times> int \<times> int" where
  \<comment> \<open>year, month (1 to 12) and day of the month of a day number\<close>
  "civilFromDays z =
     (let z' = z + 719468;
          era = z' div 146097;
          doe = z' - era * 146097;
          yoe = (doe - doe div 1460 + doe div 36524 - doe div 146096) div 365;
          doy = doe - (365 * yoe + yoe div 4 - yoe div 100);
          mp = (5 * doy + 2) div 153;
          d = doy - (153 * mp + 2) div 5 + 1;
          m = (if mp < 10 then mp + 3 else mp - 9);
          y = yoe + era * 400
      in (if m \<le> 2 then y + 1 else y, m, d))"

definition digitVal :: "char \<Rightarrow> int" where
  "digitVal c = int (of_char c) - 48"

definition isoDateOnly :: "string \<Rightarrow> (int \<times> int \<times> int) option" where
  \<comment> \<open>the fields of a text of the form YYYY-MM-DD\<close>
  "isoDateOnly s =
     (case s of
        [y1, y2, y3, y4, h1, m1, m2, h2, d1, d2] \<Rightarrow>
          if list_all isDigit [y1, y2, y3, y4, m1, m2, d1, d2] \<and> h1 = CHR ''-'' \<and> h2 = CHR ''-''
          then Some (1000 * digitVal y1 + 100 * digitVal y2 + 10 * digitVal y3 + digitVal y4,
                     10 * digitVal m1 + digitVal m2,
                     10 * digitVal d1 + digitVal d2)
          else None
      | _ \<Rightarrow> None)"

definition newDate :: "platform \<Rightarrow> string \<Rightarrow> int option" where
  \<comment> \<open>the time value of \<^verbatim>\<open>new Date(s)\<close>, None when it is NaN\<close>
  "newDate pf s =
     (case isoDateOnly s of
        Some (y, m, d) \<Rightarrow>
          if 1 \<le> m \<and> m \<le> 12 \<and> 1 \<le> d \<and> d \<le> daysInMonth y m
          then Some (daysFromCivil y m d * msPerDay)
          else parseOther pf s
      | None \<Rightarrow> parseOther pf s)"

definition localCivil :: "platform \<Rightarrow> int \<Rightarrow> int \<times> int \<times> int" where
  "localCivil pf t = civilFromDays ((t + localTZA pf t) div msPerDay)"

definition getFullYear :: "platform \<Rightarrow> int \<Rightarrow> int" where
  "getFullYear pf t = fst (localCivil pf t)"

definition getMonth :: "platform \<Rightarrow> int \<Rightarrow> int" where
  \<comment> \<open>0 to 11\<close>
  "getMonth pf t = fst (snd (localCivil pf t)) - 1"

definition getDate :: "platform \<Rightarrow> int \<Rightarrow> int" where
  "getDate pf t = snd (snd (localCivil pf t))"

definition dateBranch :: "platform \<Rightarrow> string \<Rightarrow> string option" where
  \<comment> \<open>the body of \<^verbatim>\<open>if (isDateQuery)\<close>: the returned text, None when it falls through\<close>
  "dateBranch pf text =
     (case search dateRegex text of
        None \<Rightarrow> None
      | Some dateMatch \<Rightarrow>
          (case newDate pf (matched dateMatch) of
             None \<Rightarrow> None
           | Some date \<Rightarrow>
               Some (''Today's date is '' @ padStart (intToString (getDate pf date)) 2 CHR ''0''
                     @ ''/'' @ padStart (intToString (getMonth pf date + 1)) 2 CHR ''0''
                     @ ''/'' @ intToString (getFullYear pf date))))"

subsection \<open>Fenced code blocks\<close>

definition codeBlockRegex :: re where
  \<comment> \<open>\<^verbatim>\<open>/```(\w*)\n([\s\S]*?)```/g\<close>\<close>
  "codeBlockRegex =
     lit ''```''
       (Seq (Group 1 (Quant 0 None True Word))
       (Seq (A (Ch CHR 0x0A))
       (Seq (Group 2 (Quant 0 None False (OneOf Space NonSpace)))
            (word ''```''))))"

function codeBlockMatches :: "string \<Rightarrow> rmatch list" where
  \<comment> \<open>the matches of \<^verbatim>\<open>while ((match = codeBlockRegex.exec(text)) !== null)\<close>, in order:
      each search starts where the match before ended\<close>
  "codeBlockMatches s =
     (case search codeBlockRegex s of
        None \<Rightarrow> []
      | Some m \<Rightarrow> m # codeBlockMatches (mafter m))"
  by pat_completeness auto

record codeBlock =
  original :: string
  html :: string

definition groupText :: "rmatch \<Rightarrow> nat \<Rightarrow> string" where
  \<comment> \<open>the text of a group; both groups of the code block pattern take part in every
      match (lemma \<open>codeBlock_groups_defined\<close>), so the other case does not arise\<close>
  "groupText m n = (case group m n of Some g \<Rightarrow> g | None \<Rightarrow> [])"

definition codeBlockHtml :: "string \<Rightarrow> string \<Rightarrow> string \<Rightarrow> string" where
  \<comment> \<open>the template literal of \<^verbatim>\<open>html\<close>\<close>
  \<open>codeBlockHtml lang codeId code =
     ''\<newline>            <div class="code-block">'' @
     ''\<newline>              <div class="code-header">'' @
     ''\<newline>                <span class="code-lang">'' @ lang @ ''</span>'' @
     ''\<newline>                <button class="code-btn copy-btn" data-code-id="'' @ codeId @ ''">Copy</button>'' @
     ''\<newline>                <button class="code-btn edit-btn" data-code-id="'' @ codeId @ ''">Edit</button>'' @
     ''\<newline>              </div>'' @
     ''\<newline>              <pre><code class="language-'' @ lang @ ''" id="'' @ codeId @ ''">'' @ code @ ''</code></pre>'' @
     ''\<newline>            </div>'' @
     ''\<newline>          ''\<close>

text \<open>
  \<^verbatim>\<open>Math.random().toString(36).substr(2, 9)\<close> is a draw from the platform: \<open>rnd k\<close> is the
  text of the k-th draw of one run of formatResponse.
\<close>

definition makeCodeBlock :: "(nat \<Rightarrow> string) \<Rightarrow> nat \<times> rmatch \<Rightarrow> codeBlock" where
  \<comment> \<open>the body of the \<^verbatim>\<open>while\<close> loop, for the k-th match\<close>
  "makeCodeBlock rnd km =
     (let k = fst km; m = snd km;
          lang = (if groupText m 1 = [] then ''text'' else groupText m 1);
          code = trim (groupText m 2);
          codeId = ''code-'' @ rnd k
      in \<lparr>original = matched m, html = codeBlockHtml lang codeId code\<rparr>)"

fun forEachBlock :: "string \<Rightarrow> nat \<Rightarrow> codeBlock list \<Rightarrow> nat \<Rightarrow> int \<times> string \<Rightarrow> int \<times> string" where
  \<comment> \<open>\<^verbatim>\<open>codeBlocks.forEach(...)\<close> on \<^verbatim>\<open>lastIndex\<close> and \<^verbatim>\<open>result\<close>; n is \<^verbatim>\<open>codeBlocks.length\<close>\<close>
  "forEachBlock text n [] index acc = acc"
| "forEachBlock text n (b # bs) index (lastIndex, result) =
     (let startIndex = indexOf text (original b) lastIndex;
          beforeText = trim (cleanResponse (slice text lastIndex startIndex));
          result1 = (if beforeText \<noteq> [] then result @ beforeText @ ''<br><br>'' else result);
          result2 = result1 @ html b;
          lastIndex' = startIndex + int (length (original b));
          result3 =
            (if int index = int n - 1
             then (let afterText = trim (cleanResponse (sliceFrom text lastIndex'))
                   in if afterText \<noteq> [] then result2 @ ''<br><br>'' @ afterText else result2)
             else result2)
      in forEachBlock text n bs (Suc index) (lastIndex', result3))"

definition formatResponse :: "platform \<Rightarrow> bool \<Rightarrow> (nat \<Rightarrow> string) \<Rightarrow> string \<Rightarrow> string" where
  "formatResponse pf isDateQuery rnd text =
     (case (if isDateQuery then dateBranch pf text else None) of
        Some today \<Rightarrow> today
      | None \<Rightarrow>
          (let found = codeBlockMatches text;
               codeBlocks = map (makeCodeBlock rnd) (zip [0 ..< length found] found);
               result = snd (forEachBlock text (length codeBlocks) codeBlocks 0 (0, []))
           in if codeBlocks = [] then cleanResponse text else result))"

section \<open>The chat session\<close>

text \<open>
  The component \<^verbatim>\<open>Home\<close> keeps React state (\<^verbatim>\<open>messages\<close>, \<^verbatim>\<open>input\<close>, \<^verbatim>\<open>history\<close>, ...), refs
  and the variables of the WebSocket effect's closure. They are the fields of one record;
  every handler is a function on it. A state update is applied at once. The clock
  (\<^verbatim>\<open>Date.now()\<close>, \<^verbatim>\<open>new Date()\<close>) is a parameter of a handler, one reading per run of the
  handler, in milliseconds; \<^verbatim>\<open>new Date().toISOString()\<close> is kept as that instant.
\<close>

record message =
  role :: string
  content :: string
  timestamp :: int
  isStreaming :: "bool option"     \<comment> \<open>None where the object has no such property\<close>

record conversation =
  conv_id :: string
  conv_messages :: "message list"
  conv_snippet :: string
  conv_timestamp :: int

datatype outbound =
    UserMessage string string      \<comment> \<open>\<^verbatim>\<open>{type: 'user_message', payload, model}\<close>\<close>
  | LoadChat string                \<comment> \<open>\<^verbatim>\<open>{type: 'load_chat', payload: {conversationId}}\<close>\<close>

datatype readyState = CONNECTING | OPEN | CLOSING | CLOSED

record socket =
  readyState :: readyState
  sent :: "outbound list"

datatype jsError = InvalidStateError

definition wsSend :: "outbound \<Rightarrow> socket \<Rightarrow> jsError + socket" where
  \<comment> \<open>\<^verbatim>\<open>WebSocket.send\<close>: throws while the socket is connecting, transmits when it is open,
      and drops the data once it is closing or closed\<close>
  "wsSend d ws =
     (case readyState ws of
        CONNECTING \<Rightarrow> Inl InvalidStateError
      | OPEN \<Rightarrow> Inr (ws\<lparr>sent := sent ws @ [d]\<rparr>)
      | CLOSING \<Rightarrow> Inr ws
      | CLOSED \<Rightarrow> Inr ws)"

datatype timerKind = IdleFlush | Reconnect

record timer =
  tid :: nat
  due :: int
  kind :: timerKind

record envelope =
  etype :: string
  payload :: string

record state =
  messages :: "message list"
  input :: string
  history :: "conversation list"
  currentConversationId :: "string option"
  isSidebarOpen :: bool
  selectedFile :: "string option"
  storage :: "conversation list option"    \<comment> \<open>\<^verbatim>\<open>localStorage\<close>, key \<^verbatim>\<open>conversationHistory\<close>\<close>
  wsRef :: "socket option"
  connects :: nat                          \<comment> \<open>how many times \<^verbatim>\<open>new WebSocket\<close> ran\<close>
  lastChunkTimeRef :: "int option"
  timeoutRef :: "nat option"
  accumulatedResponse :: string
  isDateQuery :: bool
  reconnectAttempts :: nat
  timers :: "timer list"                   \<comment> \<open>the pending timers of the event loop\<close>
  nextTimerId :: nat

definition maxReconnectAttempts :: nat where
  "maxReconnectAttempts = 5"

definition reconnectInterval :: int where
  "reconnectInterval = 3000"

definition setTimeoutJS :: "timerKind \<Rightarrow> int \<Rightarrow> int \<Rightarrow> state \<Rightarrow> nat \<times> state" where
  \<comment> \<open>\<^verbatim>\<open>setTimeout(callback, delay)\<close> at the instant now: the new timer's id and the state\<close>
  "setTimeoutJS k delay now s =
     (nextTimerId s,
      s\<lparr>timers := timers s @ [\<lparr>tid = nextTimerId s, due = now + delay, kind = k\<rparr>],
        nextTimerId := Suc (nextTimerId s)\<rparr>)"

definition clearTimeoutJS :: "nat \<Rightarrow> state \<Rightarrow> state" where
  "clearTimeoutJS i s = s\<lparr>timers := filter (\<lambda>t. tid t \<noteq> i) (timers s)\<rparr>"

definition clearIdleTimeout :: "state \<Rightarrow> state" where
  \<comment> \<open>\<^verbatim>\<open>if (timeoutRef.current) clearTimeout(timeoutRef.current)\<close>\<close>
  "clearIdleTimeout s =
     (case timeoutRef s of
        None \<Rightarrow> s
      | Some i \<Rightarrow> if i \<noteq> 0 then clearTimeoutJS i s else s)"

subsection \<open>displayResponse\<close>

definition displayUpdate :: "string \<Rightarrow> int \<Rightarrow> message list \<Rightarrow> message list" where
  \<comment> \<open>the function given to \<^verbatim>\<open>setMessages\<close> in displayResponse\<close>
  "displayUpdate formatted now prevMessages =
     (if prevMessages \<noteq> [] \<and> role (last prevMessages) = ''assistant''
      then butlast prevMessages @ [(last prevMessages)\<lparr>content := formatted, isStreaming := Some False\<rparr>]
      else prevMessages @
           [\<lparr>role = ''assistant'', content = formatted, timestamp = now, isStreaming = Some False\<rparr>])"

definition displayResponse :: "platform \<Rightarrow> (nat \<Rightarrow> string) \<Rightarrow> int \<Rightarrow> state \<Rightarrow> state" where
  "displayResponse pf rnd now s =
     (if accumulatedResponse s = [] then s
      else (let formatted = formatResponse pf (isDateQuery s) rnd (accumulatedResponse s)
            in s\<lparr>messages := displayUpdate formatted now (messages s),
                 accumulatedResponse := [],
                 isDateQuery := False,
                 lastChunkTimeRef := None\<rparr>))"

subsection \<open>The handlers of the socket\<close>

definition onopen :: "state \<Rightarrow> state" where
  "onopen s = s\<lparr>reconnectAttempts := 0, accumulatedResponse := [], isDateQuery := False,
                lastChunkTimeRef := None\<rparr>"

definition idleCallback :: "platform \<Rightarrow> (nat \<Rightarrow> string) \<Rightarrow> int \<Rightarrow> state \<Rightarrow> state" where
  \<comment> \<open>the callback of the timer set at a chunk\<close>
  "idleCallback pf rnd now s =
     (case lastChunkTimeRef s of
        None \<Rightarrow> s
      | Some t \<Rightarrow> if t \<noteq> 0 \<and> now - t \<ge> 1000 then displayResponse pf rnd now s else s)"

definition dateHint :: "string \<Rightarrow> bool" where
  \<comment> \<open>what a chunk adds to \<^verbatim>\<open>isDateQuery\<close>:
      \<^verbatim>\<open>data.payload.toLowerCase().includes('date') || data.payload.match(...)\<close>\<close>
  "dateHint p \<longleftrightarrow> includesStr (toLowerCase p) ''date'' \<or> test dateRegex p"

definition onmessage :: "platform \<Rightarrow> (nat \<Rightarrow> string) \<Rightarrow> int \<Rightarrow> envelope option \<Rightarrow> state \<Rightarrow> state" where
  \<comment> \<open>the event's data is None when \<^verbatim>\<open>JSON.parse\<close> throws: the handler catches and logs\<close>
  "onmessage pf rnd now ev s =
     (case ev of
        None \<Rightarrow> s
      | Some data \<Rightarrow>
          if etype data = ''ai_chunk'' then
            (let s1 = s\<lparr>accumulatedResponse := accumulatedResponse s @ payload data,
                        isDateQuery := (isDateQuery s \<or> dateHint (payload data)),
                        lastChunkTimeRef := Some now\<rparr>;
                 s2 = clearIdleTimeout s1;
                 (i, s3) = setTimeoutJS IdleFlush 1000 now s2
             in s3\<lparr>timeoutRef := Some i\<rparr>)
          else if etype data = ''error'' then
            s\<lparr>messages := messages s @
                 [\<lparr>role = ''assistant'', content = ''Error: '' @ payload data, timestamp = now,
                   isStreaming = Some False\<rparr>]\<rparr>
          else if etype data = ''model_connected'' then s
          else if etype data = ''stream_end'' then displayResponse pf rnd now (clearIdleTimeout s)
          else s)"

definition connectWebSocket :: "state \<Rightarrow> state" where
  "connectWebSocket s =
     s\<lparr>wsRef := Some \<lparr>readyState = CONNECTING, sent = []\<rparr>, connects := Suc (connects s)\<rparr>"

definition reconnectCallback :: "state \<Rightarrow> state" where
  \<comment> \<open>the callback of the timer set in onclose\<close>
  "reconnectCallback s = connectWebSocket (s\<lparr>reconnectAttempts := Suc (reconnectAttempts s)\<rparr>)"

definition unreachableNotice :: "int \<Rightarrow> message" where
  "unreachableNotice now =
     \<lparr>role = ''assistant'', content = ''Unable to reconnect to the server. Please refresh the page.'',
      timestamp = now, isStreaming = Some False\<rparr>"

definition onclose :: "int \<Rightarrow> state \<Rightarrow> state" where
  "onclose now s =
     (if reconnectAttempts s < maxReconnectAttempts
      then snd (setTimeoutJS Reconnect reconnectInterval now s)
      else s\<lparr>messages := messages s @ [unreachableNotice now]\<rparr>)"

definition cleanup :: "state \<Rightarrow> state" where
  \<comment> \<open>the function the effect returns: \<^verbatim>\<open>wsRef.current.close()\<close> starts the closing handshake\<close>
  "cleanup s =
     clearIdleTimeout
       (s\<lparr>wsRef := map_option (\<lambda>ws. if readyState ws = CLOSED then ws else ws\<lparr>readyState := CLOSING\<rparr>)
                               (wsRef s)\<rparr>)"

subsection \<open>Events of the platform\<close>

definition fireTimer :: "platform \<Rightarrow> (nat \<Rightarrow> string) \<Rightarrow> int \<Rightarrow> nat \<Rightarrow> state \<Rightarrow> state" where
  \<comment> \<open>the event loop runs the callback of the pending timer i, once it is due\<close>
  "fireTimer pf rnd now i s =
     (case find (\<lambda>t. tid t = i) (timers s) of
        None \<Rightarrow> s
      | Some t \<Rightarrow>
          if due t \<le> now
          then (case kind t of
                  IdleFlush \<Rightarrow> idleCallback pf rnd now (clearTimeoutJS i s)
                | Reconnect \<Rightarrow> reconnectCallback (clearTimeoutJS i s))
          else s)"

definition wsOpened :: "state \<Rightarrow> state" where
  \<comment> \<open>the socket of \<^verbatim>\<open>wsRef\<close> opens\<close>
  "wsOpened s = onopen (s\<lparr>wsRef := map_option (\<lambda>ws. ws\<lparr>readyState := OPEN\<rparr>) (wsRef s)\<rparr>)"

definition wsClosed :: "int \<Rightarrow> state \<Rightarrow> state" where
  \<comment> \<open>the socket of \<^verbatim>\<open>wsRef\<close> closes, whoever closed it\<close>
  "wsClosed now s = onclose now (s\<lparr>wsRef := map_option (\<lambda>ws. ws\<lparr>readyState := CLOSED\<rparr>) (wsRef s)\<rparr>)"

subsection \<open>The handlers of the page\<close>

definition truthyId :: "string option \<Rightarrow> bool" where
  \<comment> \<open>\<^verbatim>\<open>if (currentConversationId)\<close>: neither null nor the empty string\<close>
  "truthyId i \<longleftrightarrow> (case i of None \<Rightarrow> False | Some x \<Rightarrow> x \<noteq> [])"

definition userMessage :: "string \<Rightarrow> int \<Rightarrow> message" where
  "userMessage inp now = \<lparr>role = ''user'', content = inp, timestamp = now, isStreaming = None\<rparr>"

definition assistantMessage :: "int \<Rightarrow> message" where
  "assistantMessage now = \<lparr>role = ''assistant'', content = [], timestamp = now, isStreaming = Some True\<rparr>"

definition newConversation :: "string \<Rightarrow> message list \<Rightarrow> int \<Rightarrow> conversation" where
  "newConversation inp newMessages now =
     \<lparr>conv_id = intToString now,
      conv_messages = newMessages,
      conv_snippet = take 30 inp @ (if length inp > 30 then ''...'' else []),
      conv_timestamp = now\<rparr>"

definition handleSend :: "int \<Rightarrow> state \<Rightarrow> jsError option \<times> state" where
  \<comment> \<open>the error the handler ends with, if any, and the state it leaves: the state updates
      made before a throw stand\<close>
  "handleSend now s =
     (case wsRef s of
        None \<Rightarrow> (None, s)
      | Some ws \<Rightarrow>
          if trim (input s) = [] then (None, s)
          else
            (let newMessages = messages s @ [userMessage (input s) now, assistantMessage now];
                 s1 = s\<lparr>messages := newMessages\<rparr>
             in case wsSend (UserMessage (input s) ''openai'') ws of
                  Inl e \<Rightarrow> (Some e, s1)
                | Inr ws' \<Rightarrow>
                    (let s2 = s1\<lparr>wsRef := Some ws', input := [], selectedFile := None\<rparr>;
                         updatedHistory =
                           (if truthyId (currentConversationId s)
                            then map (\<lambda>conv. if Some (conv_id conv) = currentConversationId s
                                              then conv\<lparr>conv_messages := newMessages\<rparr> else conv)
                                     (history s)
                            else history s @ [newConversation (input s) newMessages now]);
                         s3 = (if truthyId (currentConversationId s) then s2
                               else s2\<lparr>currentConversationId := Some (intToString now)\<rparr>)
                     in (None, s3\<lparr>history := updatedHistory, storage := Some updatedHistory\<rparr>))))"

definition handleLoadConversation :: "string \<Rightarrow> state \<Rightarrow> jsError option \<times> state" where
  "handleLoadConversation conversationId s =
     (case find (\<lambda>conv. conv_id conv = conversationId) (history s) of
        None \<Rightarrow> (None, s\<lparr>isSidebarOpen := False\<rparr>)
      | Some conversation \<Rightarrow>
          (let s1 = s\<lparr>messages := conv_messages conversation,
                      currentConversationId := Some conversationId\<rparr>
           in case wsRef s1 of
                None \<Rightarrow> (None, s1\<lparr>isSidebarOpen := False\<rparr>)
              | Some ws \<Rightarrow>
                  (case wsSend (LoadChat conversationId) ws of
                     Inl e \<Rightarrow> (Some e, s1)
                   | Inr ws' \<Rightarrow> (None, s1\<lparr>wsRef := Some ws', isSidebarOpen := False\<rparr>))))"

section \<open>Runs, invariants and example values\<close>

definition chunk :: "string \<Rightarrow> envelope option" where
  "chunk f = Some \<lparr>etype = ''ai_chunk'', payload = f\<rparr>"

definition streamEnd :: "string \<Rightarrow> envelope option" where
  "streamEnd p = Some \<lparr>etype = ''stream_end'', payload = p\<rparr>"

fun deliver :: "platform \<Rightarrow> (nat \<Rightarrow> string) \<Rightarrow> (int \<times> string) list \<Rightarrow> state \<Rightarrow> state" where
  \<comment> \<open>the fragments arrive one after the other, each with its arrival time, and no other
      event runs between them\<close>
  "deliver pf rnd [] s = s"
| "deliver pf rnd (tf # tfs) s = deliver pf rnd tfs (onmessage pf rnd (fst tf) (chunk (snd tf)) s)"

definition idleTimersOk :: "state \<Rightarrow> bool" where
  \<comment> \<open>every pending idle timer is the one \<^verbatim>\<open>timeoutRef\<close> holds\<close>
  "idleTimersOk s \<longleftrightarrow>
     nextTimerId s \<noteq> 0 \<and>
     (\<forall>t \<in> set (timers s). kind t = IdleFlush \<longrightarrow> tid t \<noteq> 0 \<and> timeoutRef s = Some (tid t))"

definition timerIdsFresh :: "state \<Rightarrow> bool" where
  \<comment> \<open>the ids of the pending timers were given out before\<close>
  "timerIdsFresh s \<longleftrightarrow> (\<forall>t \<in> set (timers s). tid t < nextTimerId s)"

definition closeAndRetry :: "platform \<Rightarrow> (nat \<Rightarrow> string) \<Rightarrow> int \<Rightarrow> state \<Rightarrow> state" where
  \<comment> \<open>the socket closes at the instant now, and the timer that onclose sets then (it gets the
      next id) fires when it is due\<close>
  "closeAndRetry pf rnd now s =
     fireTimer pf rnd (now + reconnectInterval) (nextTimerId s) (wsClosed now s)"

fun retryCycles :: "platform \<Rightarrow> (nat \<Rightarrow> string) \<Rightarrow> nat \<Rightarrow> int \<Rightarrow> state \<Rightarrow> state" where
  \<comment> \<open>n close events in a row, no socket opening in between\<close>
  "retryCycles pf rnd 0 now s = s"
| "retryCycles pf rnd (Suc n) now s =
     retryCycles pf rnd n (now + reconnectInterval) (closeAndRetry pf rnd now s)"

definition examplePlatform :: platform where
  \<comment> \<open>a browser whose local time is UTC\<close>
  "examplePlatform = \<lparr>localTZA = (\<lambda>t. 0), parseOther = (\<lambda>s. None)\<rparr>"

definition exampleRnd :: "nat \<Rightarrow> string" where
  "exampleRnd k = ''k3x9'' @ natToString k"

definition exampleState :: state where
  \<comment> \<open>a fresh page with an open socket and a typed question\<close>
  "exampleState =
     \<lparr>messages = [\<lparr>role = ''assistant'', content = ''Hi there!'', timestamp = 0, isStreaming = None\<rparr>],
      input = ''What is the date?'',
      history = [],
      currentConversationId = None,
      isSidebarOpen = True,
      selectedFile = None,
      storage = None,
      wsRef = Some \<lparr>readyState = OPEN, sent = []\<rparr>,
      connects = 1,
      lastChunkTimeRef = None,
      timeoutRef = None,
      accumulatedResponse = [],
      isDateQuery = False,
      reconnectAttempts = 0,
      timers = [],
      nextTimerId = 1\<rparr>"

definition exampleSent :: state where
  \<comment> \<open>the question is sent at the instant 1000\<close>
  "exampleSent = snd (handleSend 1000 exampleState)"

definition exampleStreaming :: state where
  \<comment> \<open>two fragments of the answer have arrived\<close>
  "exampleStreaming = deliver examplePlatform exampleRnd [(1100, ''Hel''), (1400, ''lo'')] exampleSent"

section \<open>Termination of the searches\<close>

subsection \<open>What the matcher leaves is a suffix of its input\<close>

lemma runs_suffix: "s' \<in> set (runs p s) \<Longrightarrow> \<exists>pre. s = pre @ s'"
proof (induction s)
  case Nil
  then show ?case by simp
next
  case (Cons x xs)
  then show ?case
    by (auto split: if_splits intro: exI [of _ "x # pre" for pre] exI [of _ "[]"])
qed

lemma quantified_suffix:
  assumes "s' \<in> set (quantified lo hi greedy a s)"
  shows "\<exists>pre. s = pre @ s'"
proof -
  have "s' \<in> set (runs (atomMatch a) s)"
    using assms
    by (auto simp: quantified_def Let_def split: option.splits if_splits
             dest!: in_set_dropD in_set_takeD)
  then show ?thesis by (rule runs_suffix)
qed

lemma ms_suffix: "(s', c') \<in> set (ms r (s, c)) \<Longrightarrow> \<exists>pre. s = pre @ s'"
proof (induction r arbitrary: s c s' c')
  case (A a)
  then show ?case by (auto split: list.splits if_splits)
next
  case (Seq r1 r2)
  from Seq.prems obtain s1 c1 where
    m1: "(s1, c1) \<in> set (ms r1 (s, c))" and m2: "(s', c') \<in> set (ms r2 (s1, c1))"
    by auto
  from Seq.IH(1) [OF m1] obtain p1 where "s = p1 @ s1" by blast
  moreover from Seq.IH(2) [OF m2] obtain p2 where "s1 = p2 @ s'" by blast
  ultimately have "s = (p1 @ p2) @ s'" by simp
  then show ?case by blast
next
  case (Alt r1 r2)
  then show ?case by auto
next
  case (Quant lo hi greedy a)
  then show ?case by (auto dest: quantified_suffix)
next
  case (Group n r)
  then show ?case by auto
next
  case (LookAhead r)
  then show ?case by (auto split: if_splits)
next
  case EndOfInput
  then show ?case by (auto split: if_splits)
qed

lemma ms_hd_suffix:
  assumes "ms r (s, c) = (s', c') # rest"
  shows "\<exists>pre. s = pre @ s'"
proof -
  have "(s', c') \<in> set (ms r (s, c))" using assms by simp
  then show ?thesis by (rule ms_suffix)
qed

lemma search_split: "search r s = Some m \<Longrightarrow> s = mbefore m @ matched m @ mafter m"
proof (induction s arbitrary: m)
  case Nil
  then show ?case by (auto split: list.splits)
next
  case (Cons x xs)
  show ?case
  proof (cases "ms r (x # xs, [])")
    case Nil
    with Cons.prems obtain m' where m': "search r xs = Some m'" and m: "m = m'\<lparr>mbefore := x # mbefore m'\<rparr>"
      by auto
    from Cons.IH [OF m'] m show ?thesis by simp
  next
    case (Cons st rest)
    obtain s' c' where st: "st = (s', c')" by (cases st)
    from ms_hd_suffix [OF Cons [unfolded st]] obtain pre where pre: "x # xs = pre @ s'" by blast
    have tk: "take (length (x # xs) - length s') (x # xs) = pre"
      by (simp only: pre) simp
    from Cons.prems Cons st
    have "m = \<lparr>mbefore = [], matched = take (length (x # xs) - length s') (x # xs),
                mafter = s', groups = c'\<rparr>"
      by simp
    then have "mbefore m = []" "matched m = pre" "mafter m = s'"
      by (simp_all only: tk rmatch.simps)
    with pre show ?thesis by simp
  qed
qed

lemma search_after_length: "search r s = Some m \<Longrightarrow> length (matched m) + length (mafter m) \<le> length s"
  by (drule search_split) (metis length_append le_add2)

termination removeAll
proof (relation "measure (\<lambda>(r, s). length s)")
  show "wf (measure (\<lambda>(r, s). length s))" by simp
next
  fix r s m x xs
  assume "search r s = Some m" "mafter m = x # xs"
  then show "((r, xs), (r, s)) \<in> measure (\<lambda>(r, s). length s)"
    using search_after_length [of r s m] by simp
next
  fix r s m
  assume "search r s = Some m" "matched m \<noteq> []"
  then show "((r, mafter m), (r, s)) \<in> measure (\<lambda>(r, s). length s)"
    using search_after_length [of r s m] by (cases "matched m") auto
qed

declare removeAll.simps [simp del]

lemma search_ms:
  "search r s = Some m \<Longrightarrow> \<exists>more. ms r (matched m @ mafter m, []) = (mafter m, groups m) # more"
proof (induction s arbitrary: m)
  case Nil
  then show ?case by (auto split: list.splits dest: ms_hd_suffix)
next
  case (Cons x xs)
  show ?case
  proof (cases "ms r (x # xs, [])")
    case Nil
    with Cons.prems obtain m' where m': "search r xs = Some m'" and m: "m = m'\<lparr>mbefore := x # mbefore m'\<rparr>"
      by auto
    from Cons.IH [OF m'] m show ?thesis by simp
  next
    case (Cons st more)
    obtain s' c' where st: "st = (s', c')" by (cases st)
    from Cons.prems Cons st have "mbefore m = []" "mafter m = s'" "groups m = c'"
      by auto
    moreover from search_split [OF Cons.prems] have "x # xs = mbefore m @ matched m @ mafter m" .
    ultimately show ?thesis using Cons st by simp
  qed
qed

lemma ms_atom_first_shorter:
  assumes "(s', c') \<in> set (ms (Seq (A a) r) (s, c))"
  shows "length s' < length s"
proof -
  from assms obtain s1 c1 where
    m1: "(s1, c1) \<in> set (ms (A a) (s, c))" and m2: "(s', c') \<in> set (ms r (s1, c1))"
    by auto
  from m1 have "length s1 < length s" by (auto split: list.splits if_splits)
  moreover from ms_suffix [OF m2] have "length s' \<le> length s1" by auto
  ultimately show ?thesis by simp
qed

lemma codeBlock_match_shorter:
  assumes "search codeBlockRegex s = Some m"
  shows "length (mafter m) < length s"
proof -
  from search_ms [OF assms] obtain more where
    "ms codeBlockRegex (matched m @ mafter m, []) = (mafter m, groups m) # more" ..
  then have "(mafter m, groups m) \<in> set (ms codeBlockRegex (matched m @ mafter m, []))"
    by simp
  then have "length (mafter m) < length (matched m @ mafter m)"
    unfolding codeBlockRegex_def lit.simps by (rule ms_atom_first_shorter)
  moreover from search_split [OF assms] have "length s = length (mbefore m) + length (matched m @ mafter m)"
    by (metis length_append)
  ultimately show ?thesis by simp
qed

termination codeBlockMatches
  by (relation "measure length") (auto dest: codeBlock_match_shorter)

declare codeBlockMatches.simps [simp del]

section \<open>The flush\<close>

lemma displayUpdate_assistant:
  assumes "msgs \<noteq> []" "role (last msgs) = ''assistant''"
  shows "displayUpdate f now msgs = butlast msgs @ [(last msgs)\<lparr>content := f, isStreaming := Some False\<rparr>]"
  using assms by (simp add: displayUpdate_def)

lemma displayUpdate_other:
  assumes "msgs = [] \<or> role (last msgs) \<noteq> ''assistant''"
  shows "displayUpdate f now msgs =
           msgs @ [\<lparr>role = ''assistant'', content = f, timestamp = now, isStreaming = Some False\<rparr>]"
  using assms by (auto simp add: displayUpdate_def)

lemma displayResponse_messages:
  "accumulatedResponse s \<noteq> [] \<Longrightarrow>
   messages (displayResponse pf rnd now s) =
     displayUpdate (formatResponse pf (isDateQuery s) rnd (accumulatedResponse s)) now (messages s)"
  by (simp add: displayResponse_def Let_def)

lemma displayResponse_empty: "accumulatedResponse s = [] \<Longrightarrow> displayResponse pf rnd now s = s"
  by (simp add: displayResponse_def)

lemma displayResponse_buffer: "accumulatedResponse (displayResponse pf rnd now s) = []"
  by (simp add: displayResponse_def Let_def)

lemma displayResponse_timers: "timers (displayResponse pf rnd now s) = timers s"
  by (simp add: displayResponse_def Let_def)

lemma displayResponse_storage: "storage (displayResponse pf rnd now s) = storage s"
  by (simp add: displayResponse_def Let_def)

lemma displayResponse_twice:
  "displayResponse pf' rnd' now' (displayResponse pf rnd now s) = displayResponse pf rnd now s"
  by (rule displayResponse_empty) (rule displayResponse_buffer)

lemma clearIdleTimeout_fields:
  "accumulatedResponse (clearIdleTimeout s) = accumulatedResponse s"
  "messages (clearIdleTimeout s) = messages s"
  "isDateQuery (clearIdleTimeout s) = isDateQuery s"
  "timeoutRef (clearIdleTimeout s) = timeoutRef s"
  "storage (clearIdleTimeout s) = storage s"
  "lastChunkTimeRef (clearIdleTimeout s) = lastChunkTimeRef s"
  "nextTimerId (clearIdleTimeout s) = nextTimerId s"
  by (simp_all add: clearIdleTimeout_def clearTimeoutJS_def split: option.splits)

lemma clearIdleTimeout_cancels:
  "timeoutRef s = Some i \<Longrightarrow> i \<noteq> 0 \<Longrightarrow> i \<notin> tid ` set (timers (clearIdleTimeout s))"
  by (auto simp add: clearIdleTimeout_def clearTimeoutJS_def)

lemma clearIdleTimeout_no_idle:
  "idleTimersOk s \<Longrightarrow> t \<in> set (timers (clearIdleTimeout s)) \<Longrightarrow> kind t \<noteq> IdleFlush"
  by (auto simp add: idleTimersOk_def clearIdleTimeout_def clearTimeoutJS_def
           split: option.splits if_splits)

lemma onmessage_stream_end:
  "onmessage pf rnd now (streamEnd p) s = displayResponse pf rnd now (clearIdleTimeout s)"
  by (simp add: onmessage_def streamEnd_def)

lemma fireTimer_messages_empty_buffer:
  assumes "accumulatedResponse s = []"
  shows "messages (fireTimer pf rnd now j s) = messages s"
  using assms
  by (auto simp add: fireTimer_def idleCallback_def displayResponse_def clearTimeoutJS_def
        reconnectCallback_def connectWebSocket_def
      split: option.splits timerKind.splits)

lemma exampleStreaming_buffer: "accumulatedResponse exampleStreaming = ''Hello''"
  by code_simp

lemma exampleStreaming_hint: "isDateQuery exampleStreaming = False"
  by code_simp

lemma exampleStreaming_messages:
  "messages exampleStreaming =
     [\<lparr>role = ''assistant'', content = ''Hi there!'', timestamp = 0, isStreaming = None\<rparr>,
      \<lparr>role = ''user'', content = ''What is the date?'', timestamp = 1000, isStreaming = None\<rparr>,
      \<lparr>role = ''assistant'', content = [], timestamp = 1000, isStreaming = Some True\<rparr>]"
  by code_simp

lemma exampleStreaming_timers:
  "timers exampleStreaming = [\<lparr>tid = 2, due = 2400, kind = IdleFlush\<rparr>]"
  "timeoutRef exampleStreaming = Some 2"
  "nextTimerId exampleStreaming = 3"
  by code_simp+

lemma format_Hello: "formatResponse examplePlatform False exampleRnd ''Hello'' = ''Hello''"
  by code_simp

text \<open>
  C10. A flush with a non-empty buffer touches the end of the message list only. If the
  last message has the role assistant, the list keeps its length and every earlier message,
  and the last message is that message with its content set to the transformed text and
  isStreaming set to false, whatever it was before (a placeholder, a finished reply or a
  surfaced error). Otherwise a new assistant message is appended behind the unchanged list.
\<close>

theorem flush_frame:
  assumes buf: "accumulatedResponse s \<noteq> []"
  shows "(messages s \<noteq> [] \<and> role (last (messages s)) = ''assistant'' \<longrightarrow>
            length (messages (displayResponse pf rnd now s)) = length (messages s)
          \<and> (\<forall>i < length (messages s) - 1. messages (displayResponse pf rnd now s) ! i = messages s ! i)
          \<and> last (messages (displayResponse pf rnd now s)) =
              (last (messages s))\<lparr>content := formatResponse pf (isDateQuery s) rnd (accumulatedResponse s),
                                  isStreaming := Some False\<rparr>)
       \<and> (messages s = [] \<or> role (last (messages s)) \<noteq> ''assistant'' \<longrightarrow>
            messages (displayResponse pf rnd now s) =
              messages s @ [\<lparr>role = ''assistant'',
                             content = formatResponse pf (isDateQuery s) rnd (accumulatedResponse s),
                             timestamp = now, isStreaming = Some False\<rparr>])"
proof (intro conjI impI)
  assume a: "messages s \<noteq> [] \<and> role (last (messages s)) = ''assistant''"
  let ?f = "formatResponse pf (isDateQuery s) rnd (accumulatedResponse s)"
  have eq: "messages (displayResponse pf rnd now s)
            = butlast (messages s) @ [(last (messages s))\<lparr>content := ?f, isStreaming := Some False\<rparr>]"
    using a buf by (simp add: displayResponse_messages displayUpdate_assistant)
  from a show "length (messages (displayResponse pf rnd now s)) = length (messages s)"
    by (simp add: eq)
  show "\<forall>i < length (messages s) - 1. messages (displayResponse pf rnd now s) ! i = messages s ! i"
    by (simp add: eq nth_append nth_butlast)
  show "last (messages (displayResponse pf rnd now s)) =
          (last (messages s))\<lparr>content := ?f, isStreaming := Some False\<rparr>"
    by (simp add: eq)
next
  assume "messages s = [] \<or> role (last (messages s)) \<noteq> ''assistant''"
  then show "messages (displayResponse pf rnd now s) =
              messages s @ [\<lparr>role = ''assistant'',
                             content = formatResponse pf (isDateQuery s) rnd (accumulatedResponse s),
                             timestamp = now, isStreaming = Some False\<rparr>]"
    using buf by (simp add: displayResponse_messages displayUpdate_other)
qed

theorem flush_frame_witness:
  "accumulatedResponse exampleStreaming \<noteq> []
   \<and> length (messages (displayResponse examplePlatform exampleRnd 2400 exampleStreaming)) = 3
   \<and> messages (displayResponse examplePlatform exampleRnd 2400 exampleStreaming) ! 1 =
       \<lparr>role = ''user'', content = ''What is the date?'', timestamp = 1000, isStreaming = None\<rparr>
   \<and> last (messages (displayResponse examplePlatform exampleRnd 2400 exampleStreaming)) =
       \<lparr>role = ''assistant'', content = ''Hello'', timestamp = 1000, isStreaming = Some False\<rparr>
   \<and> messages (displayResponse examplePlatform exampleRnd 2400
                 (exampleStreaming\<lparr>messages := butlast (messages exampleStreaming)\<rparr>)) =
       [\<lparr>role = ''assistant'', content = ''Hi there!'', timestamp = 0, isStreaming = None\<rparr>,
        \<lparr>role = ''user'', content = ''What is the date?'', timestamp = 1000, isStreaming = None\<rparr>,
        \<lparr>role = ''assistant'', content = ''Hello'', timestamp = 2400, isStreaming = Some False\<rparr>]"
proof -
  have buf: "accumulatedResponse exampleStreaming \<noteq> []"
    by (simp add: exampleStreaming_buffer)
  have buf': "accumulatedResponse (exampleStreaming\<lparr>messages := butlast (messages exampleStreaming)\<rparr>) \<noteq> []"
    by (simp add: exampleStreaming_buffer)
  from flush_frame [OF buf, of examplePlatform exampleRnd 2400]
       flush_frame [OF buf', of examplePlatform exampleRnd 2400] buf
  show ?thesis
    by (simp add: exampleStreaming_messages exampleStreaming_buffer exampleStreaming_hint format_Hello)
qed

text \<open>
  C3. When stream_end arrives, the buffer is flushed at once: the message list becomes the
  flushed list (or stays as it is when the buffer is empty), the buffer is empty afterwards,
  and the idle timer that \<^verbatim>\<open>timeoutRef\<close> holds is no longer pending; where every pending idle
  timer is the one \<^verbatim>\<open>timeoutRef\<close> holds, no idle timer is pending at all. Nothing flushes the
  same buffer again: whatever timer fires later, and whatever further stream_end arrives,
  the message list stays as the flush left it. Every flush leaves the buffer empty in the
  same step, a second flush changes nothing, and a flush with an empty buffer returns the
  state unchanged.
\<close>

theorem stream_end_flushes_once:
  "(let s' = onmessage pf rnd now (streamEnd p) s in
      messages s' =
        (if accumulatedResponse s = [] then messages s
         else displayUpdate (formatResponse pf (isDateQuery s) rnd (accumulatedResponse s)) now (messages s))
    \<and> accumulatedResponse s' = []
    \<and> (\<forall>i. timeoutRef s = Some i \<and> i \<noteq> 0 \<longrightarrow> i \<notin> tid ` set (timers s'))
    \<and> (idleTimersOk s \<longrightarrow> (\<forall>t \<in> set (timers s'). kind t \<noteq> IdleFlush))
    \<and> (\<forall>pf' rnd' now' j. messages (fireTimer pf' rnd' now' j s') = messages s')
    \<and> (\<forall>pf' rnd' now' p'. messages (onmessage pf' rnd' now' (streamEnd p') s') = messages s'))
   \<and> accumulatedResponse (displayResponse pf rnd now s) = []
   \<and> (\<forall>pf' rnd' now'. displayResponse pf' rnd' now' (displayResponse pf rnd now s) = displayResponse pf rnd now s)
   \<and> (accumulatedResponse s = [] \<longrightarrow> displayResponse pf rnd now s = s)"
proof -
  define s' where "s' = onmessage pf rnd now (streamEnd p) s"
  have m: "messages s' =
           (if accumulatedResponse s = [] then messages s
            else displayUpdate (formatResponse pf (isDateQuery s) rnd (accumulatedResponse s)) now (messages s))"
    by (simp add: s'_def onmessage_stream_end displayResponse_def Let_def clearIdleTimeout_fields)
  have b: "accumulatedResponse s' = []"
    by (simp add: s'_def onmessage_stream_end displayResponse_buffer)
  have c: "\<forall>i. timeoutRef s = Some i \<and> i \<noteq> 0 \<longrightarrow> i \<notin> tid ` set (timers s')"
    by (auto simp only: s'_def onmessage_stream_end displayResponse_timers dest: clearIdleTimeout_cancels)
  have d: "idleTimersOk s \<longrightarrow> (\<forall>t \<in> set (timers s'). kind t \<noteq> IdleFlush)"
    by (auto simp add: s'_def onmessage_stream_end displayResponse_timers dest: clearIdleTimeout_no_idle)
  have e: "\<forall>pf' rnd' now' j. messages (fireTimer pf' rnd' now' j s') = messages s'"
    using b by (simp add: fireTimer_messages_empty_buffer)
  have f: "\<forall>pf' rnd' now' p'. messages (onmessage pf' rnd' now' (streamEnd p') s') = messages s'"
    using b by (simp add: onmessage_stream_end displayResponse_empty clearIdleTimeout_fields)
  have g: "accumulatedResponse (displayResponse pf rnd now s) = []"
    by (rule displayResponse_buffer)
  have h: "\<forall>pf' rnd' now'. displayResponse pf' rnd' now' (displayResponse pf rnd now s)
             = displayResponse pf rnd now s"
    by (simp add: displayResponse_twice)
  have k: "accumulatedResponse s = [] \<longrightarrow> displayResponse pf rnd now s = s"
    by (simp add: displayResponse_empty)
  from m b c d e f g h k show ?thesis
    unfolding Let_def s'_def by blast
qed

theorem stream_end_flushes_once_witness:
  "idleTimersOk exampleStreaming
   \<and> timeoutRef exampleStreaming = Some 2
   \<and> messages (onmessage examplePlatform exampleRnd 1500 (streamEnd []) exampleStreaming) =
       [\<lparr>role = ''assistant'', content = ''Hi there!'', timestamp = 0, isStreaming = None\<rparr>,
        \<lparr>role = ''user'', content = ''What is the date?'', timestamp = 1000, isStreaming = None\<rparr>,
        \<lparr>role = ''assistant'', content = ''Hello'', timestamp = 1000, isStreaming = Some False\<rparr>]
   \<and> accumulatedResponse (onmessage examplePlatform exampleRnd 1500 (streamEnd []) exampleStreaming) = []
   \<and> 2 \<notin> tid ` set (timers (onmessage examplePlatform exampleRnd 1500 (streamEnd []) exampleStreaming))
   \<and> list_all (\<lambda>t. kind t \<noteq> IdleFlush)
        (timers (onmessage examplePlatform exampleRnd 1500 (streamEnd []) exampleStreaming))
   \<and> messages (fireTimer examplePlatform exampleRnd 2400 2
        (onmessage examplePlatform exampleRnd 1500 (streamEnd []) exampleStreaming)) =
      messages (onmessage examplePlatform exampleRnd 1500 (streamEnd []) exampleStreaming)
   \<and> displayResponse examplePlatform exampleRnd 1500 exampleState = exampleState"
proof -
  have ok: "idleTimersOk exampleStreaming"
    by (simp add: idleTimersOk_def exampleStreaming_timers)
  have e: "accumulatedResponse exampleState = []"
    by (simp add: exampleState_def)
  have u: "displayUpdate ''Hello'' 1500 (messages exampleStreaming) =
       [\<lparr>role = ''assistant'', content = ''Hi there!'', timestamp = 0, isStreaming = None\<rparr>,
        \<lparr>role = ''user'', content = ''What is the date?'', timestamp = 1000, isStreaming = None\<rparr>,
        \<lparr>role = ''assistant'', content = ''Hello'', timestamp = 1000, isStreaming = Some False\<rparr>]"
    by (simp add: exampleStreaming_messages displayUpdate_def)
  from stream_end_flushes_once [of examplePlatform exampleRnd 1500 "[]" exampleStreaming]
       stream_end_flushes_once [of examplePlatform exampleRnd 1500 "[]" exampleState]
       ok e u
  show ?thesis
    by (simp add: Let_def exampleStreaming_buffer exampleStreaming_hint exampleStreaming_timers
          format_Hello list_all_iff)
qed

section \<open>Informational envelopes\<close>

text \<open>
  C7 (as the code has it). An error envelope is surfaced: one assistant message with the
  text "Error: " and the payload is appended, and nothing else of the state changes, so the
  buffer and the socket stay as they are. A warning envelope and a status envelope have no
  branch in onmessage: the state, message list included, is unchanged.
\<close>

theorem informational_envelopes:
  "onmessage pf rnd now (Some \<lparr>etype = ''error'', payload = p\<rparr>) s =
     s\<lparr>messages := messages s @
         [\<lparr>role = ''assistant'', content = ''Error: '' @ p, timestamp = now, isStreaming = Some False\<rparr>]\<rparr>
   \<and> onmessage pf rnd now (Some \<lparr>etype = ''warning'', payload = p\<rparr>) s = s
   \<and> onmessage pf rnd now (Some \<lparr>etype = ''status'', payload = p\<rparr>) s = s"
  by (simp add: onmessage_def)

text \<open>The claim as stated fails for a warning and for a status: no message is shown.\<close>

theorem warning_not_surfaced:
  "messages (onmessage examplePlatform exampleRnd 1500
      (Some \<lparr>etype = ''warning'', payload = ''Reached maximum consecutive tool calls limit (15)''\<rparr>)
      exampleStreaming) = messages exampleStreaming
   \<and> messages (onmessage examplePlatform exampleRnd 1500
      (Some \<lparr>etype = ''status'', payload = ''Processing tool call 1/3''\<rparr>)
      exampleStreaming) = messages exampleStreaming"
  by (simp add: onmessage_def)

section \<open>The conversation store\<close>

lemma exampleSent_history:
  "history exampleSent =
     [\<lparr>conv_id = ''1000'',
       conv_messages =
         [\<lparr>role = ''assistant'', content = ''Hi there!'', timestamp = 0, isStreaming = None\<rparr>,
          \<lparr>role = ''user'', content = ''What is the date?'', timestamp = 1000, isStreaming = None\<rparr>,
          \<lparr>role = ''assistant'', content = [], timestamp = 1000, isStreaming = Some True\<rparr>],
       conv_snippet = ''What is the date?'', conv_timestamp = 1000\<rparr>]"
  by code_simp

text \<open>
  C8 (as the code has it). Loading an id that no conversation of the history has ends
  without an error: nothing is reported, and the state is unchanged but for the sidebar,
  which closes. Loading an id that is present makes the messages of the first conversation
  with that id the message list and the id the current conversation.
\<close>

theorem load_conversation:
  "(i \<notin> conv_id ` set (history s) \<longrightarrow> handleLoadConversation i s = (None, s\<lparr>isSidebarOpen := False\<rparr>))
   \<and> (\<forall>conv. find (\<lambda>conv. conv_id conv = i) (history s) = Some conv \<longrightarrow>
          messages (snd (handleLoadConversation i s)) = conv_messages conv
        \<and> currentConversationId (snd (handleLoadConversation i s)) = Some i)"
proof (intro conjI impI allI)
  assume "i \<notin> conv_id ` set (history s)"
  then have "find (\<lambda>conv. conv_id conv = i) (history s) = None"
    by (auto simp add: find_None_iff)
  then show "handleLoadConversation i s = (None, s\<lparr>isSidebarOpen := False\<rparr>)"
    by (simp add: handleLoadConversation_def)
next
  fix conv
  assume f: "find (\<lambda>conv. conv_id conv = i) (history s) = Some conv"
  show "messages (snd (handleLoadConversation i s)) = conv_messages conv"
    using f by (simp add: handleLoadConversation_def Let_def split: option.splits sum.splits)
  show "currentConversationId (snd (handleLoadConversation i s)) = Some i"
    using f by (simp add: handleLoadConversation_def Let_def split: option.splits sum.splits)
qed

theorem load_conversation_witness:
  "''42'' \<notin> conv_id ` set (history exampleSent)
   \<and> handleLoadConversation ''42'' exampleSent = (None, exampleSent\<lparr>isSidebarOpen := False\<rparr>)
   \<and> messages (snd (handleLoadConversation ''1000'' (exampleSent\<lparr>messages := []\<rparr>))) =
         [\<lparr>role = ''assistant'', content = ''Hi there!'', timestamp = 0, isStreaming = None\<rparr>,
          \<lparr>role = ''user'', content = ''What is the date?'', timestamp = 1000, isStreaming = None\<rparr>,
          \<lparr>role = ''assistant'', content = [], timestamp = 1000, isStreaming = Some True\<rparr>]
   \<and> currentConversationId (snd (handleLoadConversation ''1000'' (exampleSent\<lparr>messages := []\<rparr>))) = Some ''1000''"
  using load_conversation [of "''42''" exampleSent]
        load_conversation [of "''1000''" "exampleSent\<lparr>messages := []\<rparr>"]
  by (simp add: exampleSent_history)

text \<open>The claim as stated fails: for an unknown id the handler returns without any error.\<close>

theorem load_unknown_reports_nothing:
  "fst (handleLoadConversation ''42'' exampleSent) = None
   \<and> isSidebarOpen exampleSent
   \<and> \<not> isSidebarOpen (snd (handleLoadConversation ''42'' exampleSent))"
  by code_simp

lemma onmessage_storage: "storage (onmessage pf rnd now ev s) = storage s"
  by (simp add: onmessage_def displayResponse_storage clearIdleTimeout_fields setTimeoutJS_def Let_def
        split: option.splits)

lemma fireTimer_storage: "storage (fireTimer pf rnd now i s) = storage s"
  by (simp add: fireTimer_def idleCallback_def displayResponse_storage clearTimeoutJS_def
        reconnectCallback_def connectWebSocket_def
        split: option.splits timerKind.splits)

lemma wsSend_not_connecting:
  "readyState ws \<noteq> CONNECTING \<Longrightarrow> \<exists>ws'. wsSend d ws = Inr ws'"
  by (cases "readyState ws") (simp_all add: wsSend_def)

text \<open>
  C1 (as the code has it). A send that goes through stores the updated history, and the
  conversation it writes holds the message list of that send: the messages before, the user
  message and the assistant placeholder, whose isStreaming is true. The archive is written
  by the send only: a flush, an incoming envelope and a timer leave it as it is.
\<close>

theorem send_persists_placeholder:
  assumes ws: "wsRef s = Some ws" and rs: "readyState ws \<noteq> CONNECTING"
      and inp: "trim (input s) \<noteq> []"
  shows "(let s' = snd (handleSend now s) in
            fst (handleSend now s) = None
          \<and> messages s' = messages s @ [userMessage (input s) now, assistantMessage now]
          \<and> isStreaming (last (messages s')) = Some True
          \<and> storage s' = Some (history s')
          \<and> history s' =
              (if truthyId (currentConversationId s)
               then map (\<lambda>conv. if Some (conv_id conv) = currentConversationId s
                                 then conv\<lparr>conv_messages := messages s'\<rparr> else conv) (history s)
               else history s @ [newConversation (input s) (messages s') now])
          \<and> (\<forall>pf rnd t. storage (displayResponse pf rnd t s') = storage s')
          \<and> (\<forall>pf rnd t ev. storage (onmessage pf rnd t ev s') = storage s')
          \<and> (\<forall>pf rnd t i. storage (fireTimer pf rnd t i s') = storage s'))"
proof -
  from wsSend_not_connecting [OF rs] obtain ws' where
    snd: "wsSend (UserMessage (input s) ''openai'') ws = Inr ws'" by blast
  show ?thesis
    using ws inp snd
    by (simp add: handleSend_def Let_def assistantMessage_def displayResponse_storage
          onmessage_storage fireTimer_storage)
qed

theorem send_persists_placeholder_witness:
  "readyState \<lparr>readyState = OPEN, sent = []\<rparr> \<noteq> CONNECTING
   \<and> trim (input exampleState) \<noteq> []
   \<and> storage (snd (handleSend 1000 exampleState)) = Some
       [\<lparr>conv_id = ''1000'',
         conv_messages =
           [\<lparr>role = ''assistant'', content = ''Hi there!'', timestamp = 0, isStreaming = None\<rparr>,
            \<lparr>role = ''user'', content = ''What is the date?'', timestamp = 1000, isStreaming = None\<rparr>,
            \<lparr>role = ''assistant'', content = [], timestamp = 1000, isStreaming = Some True\<rparr>],
         conv_snippet = ''What is the date?'', conv_timestamp = 1000\<rparr>]"
proof -
  have ws: "wsRef exampleState = Some \<lparr>readyState = OPEN, sent = []\<rparr>"
    by (simp add: exampleState_def)
  have rs: "readyState \<lparr>readyState = OPEN, sent = []\<rparr> \<noteq> CONNECTING" by simp
  have inp: "trim (input exampleState) \<noteq> []" by code_simp
  have i: "input exampleState = ''What is the date?''" by (simp add: exampleState_def)
  have m: "messages exampleState = [\<lparr>role = ''assistant'', content = ''Hi there!'', timestamp = 0, isStreaming = None\<rparr>]"
    by (simp add: exampleState_def)
  have h: "history exampleState = []" "currentConversationId exampleState = None"
    by (simp_all add: exampleState_def)
  have n: "intToString 1000 = ''1000''" by code_simp
  from send_persists_placeholder [OF ws rs inp, of 1000] rs inp show ?thesis
    by (simp add: Let_def i m h n truthyId_def newConversation_def userMessage_def assistantMessage_def)
qed

text \<open>
  The claim as stated fails: after the send and the flush of the answer, the archive
  still holds the placeholder with isStreaming true and no content, while the message list
  on the page holds the finished answer.
\<close>

theorem archive_keeps_streaming_placeholder:
  "storage (onmessage examplePlatform exampleRnd 1500 (streamEnd []) exampleStreaming) = Some
       [\<lparr>conv_id = ''1000'',
         conv_messages =
           [\<lparr>role = ''assistant'', content = ''Hi there!'', timestamp = 0, isStreaming = None\<rparr>,
            \<lparr>role = ''user'', content = ''What is the date?'', timestamp = 1000, isStreaming = None\<rparr>,
            \<lparr>role = ''assistant'', content = [], timestamp = 1000, isStreaming = Some True\<rparr>],
         conv_snippet = ''What is the date?'', conv_timestamp = 1000\<rparr>]
   \<and> last (messages (onmessage examplePlatform exampleRnd 1500 (streamEnd []) exampleStreaming)) =
       \<lparr>role = ''assistant'', content = ''Hello'', timestamp = 1000, isStreaming = Some False\<rparr>"
  by code_simp

section \<open>Reconnection\<close>

lemma wsClosed_schedules:
  assumes "reconnectAttempts s < maxReconnectAttempts"
  shows "timers (wsClosed now s) = timers s @ [\<lparr>tid = nextTimerId s, due = now + reconnectInterval, kind = Reconnect\<rparr>]"
    and "messages (wsClosed now s) = messages s"
    and "connects (wsClosed now s) = connects s"
    and "reconnectAttempts (wsClosed now s) = reconnectAttempts s"
    and "nextTimerId (wsClosed now s) = Suc (nextTimerId s)"
  using assms by (simp_all add: wsClosed_def onclose_def setTimeoutJS_def)

lemma wsClosed_exhausted:
  assumes "\<not> reconnectAttempts s < maxReconnectAttempts"
  shows "timers (wsClosed now s) = timers s"
    and "messages (wsClosed now s) = messages s @ [unreachableNotice now]"
    and "connects (wsClosed now s) = connects s"
    and "reconnectAttempts (wsClosed now s) = reconnectAttempts s"
  using assms by (simp_all add: wsClosed_def onclose_def)

lemma find_fresh_timer:
  assumes "\<forall>t \<in> set ts. tid t \<noteq> i"
  shows "find (\<lambda>t. tid t = i) (ts @ [\<lparr>tid = i, due = d, kind = k\<rparr>]) = Some \<lparr>tid = i, due = d, kind = k\<rparr>"
  using assms by (induction ts) auto

lemma filter_fresh_timer:
  assumes "\<forall>t \<in> set ts. tid t \<noteq> i"
  shows "filter (\<lambda>t. tid t \<noteq> i) (ts @ [\<lparr>tid = i, due = d, kind = k\<rparr>]) = ts"
  using assms by (induction ts) auto

lemma closeAndRetry_step:
  assumes fresh: "timerIdsFresh s" and lt: "reconnectAttempts s < maxReconnectAttempts"
  shows "reconnectAttempts (closeAndRetry pf rnd now s) = Suc (reconnectAttempts s)"
    and "connects (closeAndRetry pf rnd now s) = Suc (connects s)"
    and "timers (closeAndRetry pf rnd now s) = timers s"
    and "messages (closeAndRetry pf rnd now s) = messages s"
    and "nextTimerId (closeAndRetry pf rnd now s) = Suc (nextTimerId s)"
    and "wsRef (closeAndRetry pf rnd now s) = Some \<lparr>readyState = CONNECTING, sent = []\<rparr>"
    and "timerIdsFresh (closeAndRetry pf rnd now s)"
proof -
  let ?new = "\<lparr>tid = nextTimerId s, due = now + reconnectInterval, kind = Reconnect\<rparr>"
  from fresh have ne: "\<forall>t \<in> set (timers s). tid t \<noteq> nextTimerId s"
    by (auto simp add: timerIdsFresh_def)
  have f: "find (\<lambda>t. tid t = nextTimerId s) (timers (wsClosed now s)) = Some ?new"
    by (simp only: wsClosed_schedules(1) [OF lt] find_fresh_timer [OF ne])
  have g: "filter (\<lambda>t. tid t \<noteq> nextTimerId s) (timers (wsClosed now s)) = timers s"
    by (simp only: wsClosed_schedules(1) [OF lt] filter_fresh_timer [OF ne])
  have eq: "closeAndRetry pf rnd now s = reconnectCallback (clearTimeoutJS (nextTimerId s) (wsClosed now s))"
    by (simp add: closeAndRetry_def fireTimer_def f)
  show "reconnectAttempts (closeAndRetry pf rnd now s) = Suc (reconnectAttempts s)"
    by (simp add: eq reconnectCallback_def connectWebSocket_def clearTimeoutJS_def wsClosed_schedules [OF lt])
  show "connects (closeAndRetry pf rnd now s) = Suc (connects s)"
    by (simp add: eq reconnectCallback_def connectWebSocket_def clearTimeoutJS_def wsClosed_schedules [OF lt])
  show t: "timers (closeAndRetry pf rnd now s) = timers s"
    by (simp add: eq reconnectCallback_def connectWebSocket_def clearTimeoutJS_def g)
  show "messages (closeAndRetry pf rnd now s) = messages s"
    by (simp add: eq reconnectCallback_def connectWebSocket_def clearTimeoutJS_def wsClosed_schedules [OF lt])
  show n: "nextTimerId (closeAndRetry pf rnd now s) = Suc (nextTimerId s)"
    by (simp add: eq reconnectCallback_def connectWebSocket_def clearTimeoutJS_def wsClosed_schedules [OF lt])
  show "wsRef (closeAndRetry pf rnd now s) = Some \<lparr>readyState = CONNECTING, sent = []\<rparr>"
    by (simp add: eq reconnectCallback_def connectWebSocket_def clearTimeoutJS_def)
  from fresh show "timerIdsFresh (closeAndRetry pf rnd now s)"
    by (auto simp add: timerIdsFresh_def t n less_Suc_eq)
qed

lemma retryCycles_counts:
  "timerIdsFresh s \<Longrightarrow> reconnectAttempts s + n \<le> maxReconnectAttempts \<Longrightarrow>
     reconnectAttempts (retryCycles pf rnd n now s) = reconnectAttempts s + n
   \<and> connects (retryCycles pf rnd n now s) = connects s + n
   \<and> timers (retryCycles pf rnd n now s) = timers s
   \<and> messages (retryCycles pf rnd n now s) = messages s"
proof (induction n arbitrary: s now)
  case 0
  then show ?case by simp
next
  case (Suc n)
  from Suc.prems have lt: "reconnectAttempts s < maxReconnectAttempts" by simp
  note st = closeAndRetry_step [OF Suc.prems(1) lt, of pf rnd now]
  have "reconnectAttempts (closeAndRetry pf rnd now s) + n \<le> maxReconnectAttempts"
    using Suc.prems by (simp add: st)
  from Suc.IH [OF st(7) this, of "now + reconnectInterval"] show ?case
    by (simp add: st)
qed

lemma cleanup_fields:
  "reconnectAttempts (cleanup s) = reconnectAttempts s"
  "nextTimerId (cleanup s) = nextTimerId s"
  by (simp_all add: cleanup_def clearIdleTimeout_fields clearIdleTimeout_def clearTimeoutJS_def split: option.splits)

text \<open>
  C4 (as the code has it). While fewer than five attempts are counted, every close event
  sets one reconnection timer, due after the fixed interval of 3000 ms, and shows nothing;
  this holds as well after the page's own cleanup has closed the socket, for onclose does
  not ask who closed it. Starting from a count of zero, n close events in a row (n at most
  five), each followed by its timer, make n new connections and leave the count at n. Once
  the count has reached five, a close event appends the notice, sets no timer and opens no
  connection.
\<close>

theorem reconnection_policy:
  "(reconnectAttempts s < maxReconnectAttempts \<longrightarrow>
      timers (wsClosed now s) =
        timers s @ [\<lparr>tid = nextTimerId s, due = now + reconnectInterval, kind = Reconnect\<rparr>]
    \<and> timers (wsClosed now (cleanup s)) =
        timers (cleanup s) @ [\<lparr>tid = nextTimerId s, due = now + reconnectInterval, kind = Reconnect\<rparr>]
    \<and> messages (wsClosed now s) = messages s)
   \<and> (timerIdsFresh s \<and> reconnectAttempts s = 0 \<and> n \<le> maxReconnectAttempts \<longrightarrow>
        reconnectAttempts (retryCycles pf rnd n now s) = n
      \<and> connects (retryCycles pf rnd n now s) = connects s + n
      \<and> timers (retryCycles pf rnd n now s) = timers s
      \<and> messages (retryCycles pf rnd n now s) = messages s)
   \<and> (reconnectAttempts s \<ge> maxReconnectAttempts \<longrightarrow>
        messages (wsClosed now s) = messages s @ [unreachableNotice now]
      \<and> timers (wsClosed now s) = timers s
      \<and> connects (wsClosed now s) = connects s
      \<and> reconnectAttempts (wsClosed now s) = reconnectAttempts s)"
proof (intro conjI impI)
  assume lt: "reconnectAttempts s < maxReconnectAttempts"
  show "timers (wsClosed now s) =
        timers s @ [\<lparr>tid = nextTimerId s, due = now + reconnectInterval, kind = Reconnect\<rparr>]"
    by (rule wsClosed_schedules(1) [OF lt])
  from lt have "reconnectAttempts (cleanup s) < maxReconnectAttempts"
    by (simp add: cleanup_fields)
  from wsClosed_schedules(1) [OF this, of now]
  show "timers (wsClosed now (cleanup s)) =
        timers (cleanup s) @ [\<lparr>tid = nextTimerId s, due = now + reconnectInterval, kind = Reconnect\<rparr>]"
    by (simp add: cleanup_fields)
  show "messages (wsClosed now s) = messages s"
    by (rule wsClosed_schedules(2) [OF lt])
next
  assume a: "timerIdsFresh s \<and> reconnectAttempts s = 0 \<and> n \<le> maxReconnectAttempts"
  then have "reconnectAttempts s + n \<le> maxReconnectAttempts" by simp
  from retryCycles_counts [OF _ this, of pf rnd now] a
  show "reconnectAttempts (retryCycles pf rnd n now s) = n"
    and "connects (retryCycles pf rnd n now s) = connects s + n"
    and "timers (retryCycles pf rnd n now s) = timers s"
    and "messages (retryCycles pf rnd n now s) = messages s"
    by simp_all
next
  assume "reconnectAttempts s \<ge> maxReconnectAttempts"
  then have ex: "\<not> reconnectAttempts s < maxReconnectAttempts" by simp
  show "messages (wsClosed now s) = messages s @ [unreachableNotice now]"
    and "timers (wsClosed now s) = timers s"
    and "connects (wsClosed now s) = connects s"
    and "reconnectAttempts (wsClosed now s) = reconnectAttempts s"
    by (rule wsClosed_exhausted [OF ex])+
qed

theorem reconnection_policy_witness:
  "timerIdsFresh exampleState
   \<and> reconnectAttempts exampleState = 0
   \<and> timers (wsClosed 0 exampleState) = [\<lparr>tid = 1, due = 3000, kind = Reconnect\<rparr>]
   \<and> reconnectAttempts (retryCycles examplePlatform exampleRnd 5 0 exampleState) = 5
   \<and> connects (retryCycles examplePlatform exampleRnd 5 0 exampleState) = 6
   \<and> messages (wsClosed 20000 (retryCycles examplePlatform exampleRnd 5 0 exampleState)) =
       messages exampleState @ [unreachableNotice 20000]
   \<and> timers (wsClosed 20000 (retryCycles examplePlatform exampleRnd 5 0 exampleState)) = []
   \<and> connects (wsClosed 20000 (retryCycles examplePlatform exampleRnd 5 0 exampleState)) = 6"
proof -
  have f: "timerIdsFresh exampleState"
    by (simp add: timerIdsFresh_def exampleState_def)
  have r: "reconnectAttempts exampleState = 0" "connects exampleState = 1" "timers exampleState = []"
    "nextTimerId exampleState = 1"
    by (simp_all add: exampleState_def)
  from reconnection_policy
         [where s = exampleState and now = 0 and n = 5 and pf = examplePlatform and rnd = exampleRnd]
       f r
  have c: "timers (wsClosed 0 exampleState) = [\<lparr>tid = 1, due = 3000, kind = Reconnect\<rparr>]
      \<and> reconnectAttempts (retryCycles examplePlatform exampleRnd 5 0 exampleState) = 5
      \<and> connects (retryCycles examplePlatform exampleRnd 5 0 exampleState) = 6
      \<and> timers (retryCycles examplePlatform exampleRnd 5 0 exampleState) = []
      \<and> messages (retryCycles examplePlatform exampleRnd 5 0 exampleState) = messages exampleState"
    by (simp add: maxReconnectAttempts_def reconnectInterval_def)
  from reconnection_policy
         [where s = "retryCycles examplePlatform exampleRnd 5 0 exampleState" and now = 20000 and n = 0
            and pf = examplePlatform and rnd = exampleRnd]
       c f r
  show ?thesis
    by (simp add: maxReconnectAttempts_def)
qed

text \<open>
  The claim as stated fails: after the cleanup has closed the socket (a close the page
  itself asked for), the close event sets the reconnection timer, and the timer opens a new
  connection.
\<close>

theorem reconnects_after_own_close:
  "timers (wsClosed 5000 (cleanup exampleStreaming)) = [\<lparr>tid = 3, due = 8000, kind = Reconnect\<rparr>]
   \<and> connects exampleStreaming = 1
   \<and> connects (fireTimer examplePlatform exampleRnd 8000 3 (wsClosed 5000 (cleanup exampleStreaming))) = 2
   \<and> wsRef (fireTimer examplePlatform exampleRnd 8000 3 (wsClosed 5000 (cleanup exampleStreaming))) =
       Some \<lparr>readyState = CONNECTING, sent = []\<rparr>"
  by code_simp

section \<open>Accumulation of the fragments\<close>














section \<open>Reasoning about searches\<close>










section \<open>The date branch\<close>











text \<open>
  The text of a date-only ISO date is read as midnight UTC and shown by the local getters:
  five hours behind UTC, the sentence alone renders the day before.
\<close>

lemma date_behind_utc_example:
  "formatResponse \<lparr>localTZA = (\<lambda>t. - 18000000), parseOther = (\<lambda>s. None)\<rparr> True exampleRnd
     ''The date is 2024-05-03.'' = ''Today's date is 02/05/2024''"
  by code_simp

section \<open>Fenced code blocks in a text\<close>

text \<open>
  Both groups of the code block pattern take part in every match, so \<^verbatim>\<open>match[2].trim()\<close>
  never meets \<^verbatim>\<open>undefined\<close>.
\<close>

lemma ms_caps_grow: "(s', c') \<in> set (ms r (s, c)) \<Longrightarrow> set c \<subseteq> set c'"
proof (induction r arbitrary: s c s' c')
  case (A a)
  then show ?case by (auto split: list.splits if_splits)
next
  case (Seq r1 r2)
  from Seq.prems obtain s1 c1 where
    m1: "(s1, c1) \<in> set (ms r1 (s, c))" and m2: "(s', c') \<in> set (ms r2 (s1, c1))"
    by auto
  from Seq.IH(1) [OF m1] Seq.IH(2) [OF m2] show ?case by blast
next
  case (Alt r1 r2)
  from Alt.prems have "(s', c') \<in> set (ms r1 (s, c)) \<or> (s', c') \<in> set (ms r2 (s, c))"
    by simp
  with Alt.IH show ?case by blast
next
  case (Quant lo hi greedy a)
  then show ?case by auto
next
  case (Group n r)
  from Group.prems obtain c'' where
    "(s', c'') \<in> set (ms r (s, c))" and "c' = (n, take (length s - length s') s) # c''"
    by auto
  with Group.IH show ?case by fastforce
next
  case (LookAhead r)
  then show ?case by (auto split: if_splits)
next
  case EndOfInput
  then show ?case by (auto split: if_splits)
qed

lemma ms_group_key: "(s', c') \<in> set (ms (Group n r) (s, c)) \<Longrightarrow> n \<in> fst ` set c'"
  by auto

lemma seq_elem:
  assumes "x \<in> set (ms (Seq r1 r2) st)"
  obtains s1 c1 where "(s1, c1) \<in> set (ms r1 st)" "x \<in> set (ms r2 (s1, c1))"
  using assms by auto

lemma seq_group_key:
  assumes "(s', c') \<in> set (ms (Seq (Group n r1) r2) (s, c))"
  shows "n \<in> fst ` set c'"
proof -
  from assms obtain s1 c1 where
    g: "(s1, c1) \<in> set (ms (Group n r1) (s, c))" and r: "(s', c') \<in> set (ms r2 (s1, c1))"
    by (rule seq_elem)
  from ms_group_key [OF g] ms_caps_grow [OF r] show ?thesis by auto
qed

lemma codeBlock_groups_defined:
  assumes "search codeBlockRegex s = Some m"
  shows "group m 1 \<noteq> None \<and> group m 2 \<noteq> None"
proof -
  let ?g2 = "Seq (Group 2 (Quant 0 None False (OneOf Space NonSpace))) (word ''```'')"
  let ?g1 = "Seq (Group 1 (Quant 0 None True Word)) (Seq (A (Ch CHR 0x0A)) ?g2)"
  from search_ms [OF assms] have
    "(mafter m, groups m) \<in> set (ms codeBlockRegex (matched m @ mafter m, []))"
    by auto
  then have "(mafter m, groups m) \<in>
      set (ms (Seq (A (Ch CHR ''`'')) (Seq (A (Ch CHR ''`'')) (Seq (A (Ch CHR ''`'')) ?g1)))
            (matched m @ mafter m, []))"
    by (simp only: codeBlockRegex_def lit.simps)
  then obtain sa ca where "(mafter m, groups m) \<in> set (ms (Seq (A (Ch CHR ''`'')) (Seq (A (Ch CHR ''`'')) ?g1)) (sa, ca))"
    by (rule seq_elem)
  then obtain sb cb where "(mafter m, groups m) \<in> set (ms (Seq (A (Ch CHR ''`'')) ?g1) (sb, cb))"
    by (rule seq_elem)
  then obtain sc cc where y: "(mafter m, groups m) \<in> set (ms ?g1 (sc, cc))"
    by (rule seq_elem)
  from seq_group_key [OF y] have k1: "1 \<in> fst ` set (groups m)" .
  from y obtain sd cd where "(mafter m, groups m) \<in> set (ms (Seq (A (Ch CHR 0x0A)) ?g2) (sd, cd))"
    by (rule seq_elem)
  then obtain se ce where "(mafter m, groups m) \<in> set (ms ?g2 (se, ce))"
    by (rule seq_elem)
  from seq_group_key [OF this] have k2: "2 \<in> fst ` set (groups m)" .
  from k1 k2 show ?thesis
    by (simp add: group_def map_of_eq_None_iff)
qed

lemma lit_match: "ms (lit w r) (w @ s, c) = ms r (s, c)"
  by (induction w) simp_all

lemma atom_mismatch: "x \<noteq> y \<Longrightarrow> ms (Seq (A (Ch y)) r) (x # s, c) = []"
  by simp

lemma atom_empty: "ms (Seq (A a) r) ([], c) = []"
  by simp



lemma runs_all: "runs (\<lambda>x. True) (x # xs) = (x # xs) # runs (\<lambda>x. True) xs"
  by simp






















section \<open>Determinism of the transformer\<close>




end
